theory Spec2Isabelle
  imports Main "HOL-Library.Word"
begin

unbundle bit_operations_syntax

section \<open>The file mailer \<open>fm\<close>: a shallow embedding of \<open>fm.go\<close>\<close>

text \<open>
  The program watches a folder, mails every newly created file whose extension is on an
  allow-list and moves it to the sub-folder \<open>save\<close>. Its own functions are \<open>main\<close> (the
  goroutine that drains the watcher's two channels), \<open>EmailFile\<close>, \<open>ExtensionMatched\<close> and
  \<open>IsFile\<close>. Everything else is the Go standard library, fsnotify, viper and the email
  package; those are modelled below from their documented behaviour on Unix, and the two
  collaborators whose answers the program cannot predict (the regular-expression engine
  and the mail server) are parameters of the model.
\<close>

subsection \<open>Library: \<open>strings\<close> and \<open>regexp\<close>\<close>

text \<open>\<open>strings.HasPrefix\<close> and \<open>strings.TrimPrefix\<close>: the prefix is removed once, if present.\<close>

definition strings_HasPrefix :: "string \<Rightarrow> string \<Rightarrow> bool" where
  "strings_HasPrefix s pre = (length pre \<le> length s \<and> take (length pre) s = pre)"

definition strings_TrimPrefix :: "string \<Rightarrow> string \<Rightarrow> string" where
  "strings_TrimPrefix s pre = (if strings_HasPrefix s pre then drop (length pre) s else s)"

text \<open>
  The package \<open>regexp\<close> is a parameter: \<open>rx_Compile\<close> parses a pattern (\<open>Inl\<close> carries the
  parse error of a malformed pattern) and \<open>rx_Match\<close> is \<open>(*Regexp).MatchString\<close>, which
  reports whether the string contains any match of the expression (it is not anchored).
  The package-level \<open>regexp.MatchString\<close> compiles the pattern and returns
  \<open>(false, err)\<close> when that fails, \<open>(re.MatchString(s), nil)\<close> otherwise.
\<close>

record 're regexp_pkg =
  rx_Compile :: "string \<Rightarrow> string + 're"
  rx_Match :: "'re \<Rightarrow> string \<Rightarrow> bool"

definition regexp_MatchString :: "'re regexp_pkg \<Rightarrow> string \<Rightarrow> string \<Rightarrow> bool \<times> string option" where
  "regexp_MatchString rx pattern s =
     (case rx_Compile rx pattern of
        Inl err \<Rightarrow> (False, Some err)
      | Inr re \<Rightarrow> (rx_Match rx re s, None))"

subsection \<open>\<open>ExtensionMatched\<close>\<close>

text \<open>
  \<^verbatim>\<open>
  func ExtensionMatched(templates []string, ext string) bool {
      x := strings.TrimPrefix(ext, ".")
      for _, pattern := range templates {
          if matched, _ := regexp.MatchString(pattern, x); matched {
              return true
          }
      }
      return false
  }
  \<close>
  The loop is \<open>range_templates\<close>. Besides the result it returns the patterns it handed to
  \<open>regexp.MatchString\<close>, in order, so that the early \<open>return true\<close> can be observed.
\<close>

fun range_templates :: "'re regexp_pkg \<Rightarrow> string \<Rightarrow> string list \<Rightarrow> bool \<times> string list" where
  "range_templates rx x [] = (False, [])"
| "range_templates rx x (pattern # templates) =
     (case regexp_MatchString rx pattern x of
        (matched, _) \<Rightarrow>
          if matched then (True, [pattern])
          else (case range_templates rx x templates of
                  (result, tried) \<Rightarrow> (result, pattern # tried)))"

definition ExtensionMatched :: "'re regexp_pkg \<Rightarrow> string list \<Rightarrow> string \<Rightarrow> bool" where
  "ExtensionMatched rx templates ext =
     fst (range_templates rx (strings_TrimPrefix ext ''.'') templates)"

definition ExtensionMatched_tried :: "'re regexp_pkg \<Rightarrow> string list \<Rightarrow> string \<Rightarrow> string list" where
  "ExtensionMatched_tried rx templates ext =
     snd (range_templates rx (strings_TrimPrefix ext ''.'') templates)"

text \<open>
  A small engine to run the model on: the patterns made of ASCII letters and digits only.
  Go compiles such a pattern to the literal it spells, and the literal matches a string
  exactly when it occurs in it. Every other pattern is rejected by this engine, as Go
  rejects the malformed pattern \<open>(\<close>.
\<close>

fun starts_with :: "string \<Rightarrow> string \<Rightarrow> bool" where
  "starts_with s [] = True"
| "starts_with [] (c # cs) = False"
| "starts_with (d # ds) (c # cs) = (d = c \<and> starts_with ds cs)"

fun occurs_in :: "string \<Rightarrow> string \<Rightarrow> bool" where
  "occurs_in lit [] = (lit = [])"
| "occurs_in lit (c # cs) = (starts_with (c # cs) lit \<or> occurs_in lit cs)"

definition literal_Compile :: "string \<Rightarrow> string + string" where
  "literal_Compile pattern =
     (if \<forall>c \<in> set pattern.
           c \<in> set ''abcdefghijklmnopqrstuvwxyzABCDEFGHIJKLMNOPQRSTUVWXYZ0123456789''
      then Inr pattern
      else Inl (''error parsing regexp: '' @ pattern))"

definition literal_regexp :: "string regexp_pkg" where
  "literal_regexp = \<lparr>rx_Compile = literal_Compile, rx_Match = occurs_in\<rparr>"

subsection \<open>Library: \<open>path/filepath\<close> on Unix\<close>

definition IsPathSeparator :: "char \<Rightarrow> bool" where
  "IsPathSeparator c = (c = CHR ''/'')"

text \<open>
  \<open>filepath.Base\<close>: the last element of the path, trailing separators removed first;
  \<open>.\<close> for the empty path and \<open>/\<close> for a path of separators only.
\<close>

definition filepath_Base :: "string \<Rightarrow> string" where
  "filepath_Base path =
     (if path = [] then ''.''
      else let stripped = rev (dropWhile IsPathSeparator (rev path));
               elem = rev (takeWhile (\<lambda>c. \<not> IsPathSeparator c) (rev stripped))
           in if elem = [] then ''/'' else elem)"

text \<open>
  \<open>filepath.Ext\<close> walks from the end of the path to the last separator and returns the
  suffix that begins at the first dot it meets, or the empty string. \<open>Ext_scan\<close> is that
  loop: its first argument holds the bytes still to visit, last byte first, its second
  the bytes already passed.
\<close>

fun Ext_scan :: "string \<Rightarrow> string \<Rightarrow> string" where
  "Ext_scan [] passed = []"
| "Ext_scan (c # earlier) passed =
     (if IsPathSeparator c then []
      else if c = CHR ''.'' then c # passed
      else Ext_scan earlier (c # passed))"

definition filepath_Ext :: "string \<Rightarrow> string" where
  "filepath_Ext path = Ext_scan (rev path) []"

text \<open>The elements of a path between its separators (empty elements included).\<close>

fun elements :: "string \<Rightarrow> string list" where
  "elements [] = [[]]"
| "elements (c # cs) =
     (if IsPathSeparator c then [] # elements cs
      else (case elements cs of
              [] \<Rightarrow> [[c]]
            | e # es \<Rightarrow> (c # e) # es))"

fun strings_Join :: "string list \<Rightarrow> string \<Rightarrow> string" where
  "strings_Join [] sep = []"
| "strings_Join [e] sep = e"
| "strings_Join (e # es) sep = e @ sep @ strings_Join es sep"

text \<open>
  \<open>filepath.Clean\<close>, by its documented rules: separators are collapsed, \<open>.\<close> elements are
  dropped, an inner \<open>..\<close> removes the element before it, a \<open>..\<close> at the start of a
  rooted path is dropped, and the empty result is \<open>.\<close>.
\<close>

definition Clean_element :: "bool \<Rightarrow> string list \<Rightarrow> string \<Rightarrow> string list" where
  "Clean_element rooted out e =
     (if e = [] \<or> e = ''.'' then out
      else if e = ''..'' then
        (if out \<noteq> [] \<and> last out \<noteq> ''..'' then butlast out
         else if rooted then out
         else out @ [e])
      else out @ [e])"

definition filepath_Clean :: "string \<Rightarrow> string" where
  "filepath_Clean path =
     (if path = [] then ''.''
      else let rooted = IsPathSeparator (hd path);
               out = strings_Join (foldl (Clean_element rooted) [] (elements path)) ''/''
           in if rooted then ''/'' @ out
              else if out = [] then ''.'' else out)"

text \<open>
  \<open>filepath.Join\<close> ignores leading empty elements, joins the rest with the separator and
  cleans the result; with no non-empty element it returns the empty string.
\<close>

definition filepath_Join :: "string list \<Rightarrow> string" where
  "filepath_Join elem =
     (case dropWhile (\<lambda>e. e = []) elem of
        [] \<Rightarrow> []
      | e # es \<Rightarrow> filepath_Clean (strings_Join (e # es) ''/''))"

subsection \<open>Library: \<open>os\<close>, \<open>time\<close>, \<open>log\<close> and the file system\<close>

text \<open>
  \<open>os.FileMode\<close> is a \<open>uint32\<close>: the low nine bits are the Unix permissions, the high bits
  tell the kind of the entry. A regular file has none of the \<open>ModeType\<close> bits.
\<close>

type_synonym FileMode = "32 word"

definition ModeDir :: FileMode where "ModeDir = push_bit 31 1"
definition ModeSymlink :: FileMode where "ModeSymlink = push_bit 27 1"
definition ModeDevice :: FileMode where "ModeDevice = push_bit 26 1"
definition ModeNamedPipe :: FileMode where "ModeNamedPipe = push_bit 25 1"
definition ModeSocket :: FileMode where "ModeSocket = push_bit 24 1"
definition ModeCharDevice :: FileMode where "ModeCharDevice = push_bit 21 1"
definition ModeIrregular :: FileMode where "ModeIrregular = push_bit 19 1"

definition ModeType :: FileMode where
  "ModeType = ModeDir OR ModeSymlink OR ModeNamedPipe OR ModeSocket OR ModeDevice
              OR ModeCharDevice OR ModeIrregular"

definition ModePerm :: FileMode where
  "ModePerm = 0x1FF" \<comment> \<open>octal 0777\<close>

text \<open>
  An entry of the file system: the mode that \<open>os.Stat\<close> reports in its \<open>FileInfo\<close> and
  the bytes that reading the entry yields.
\<close>

record FileInfo =
  Mode :: FileMode
  Data :: string

definition IsDir :: "FileInfo \<Rightarrow> bool" where
  "IsDir fi = (Mode fi AND ModeDir \<noteq> 0)"

definition IsRegular :: "FileInfo \<Rightarrow> bool" where
  "IsRegular fi = (Mode fi AND ModeType = 0)"

datatype Errno = ENOENT | ENOTDIR | EEXIST | EISDIR | EINVAL

fun Errno_Error :: "Errno \<Rightarrow> string" where
  "Errno_Error ENOENT = ''no such file or directory''"
| "Errno_Error ENOTDIR = ''not a directory''"
| "Errno_Error EEXIST = ''file exists''"
| "Errno_Error EISDIR = ''is a directory''"
| "Errno_Error EINVAL = ''invalid argument''"

definition PathError :: "string \<Rightarrow> string \<Rightarrow> Errno \<Rightarrow> string" where
  "PathError op path err = op @ '' '' @ path @ '': '' @ Errno_Error err"

definition LinkError :: "string \<Rightarrow> string \<Rightarrow> string \<Rightarrow> Errno \<Rightarrow> string" where
  "LinkError op old new err = op @ '' '' @ old @ '' '' @ new @ '': '' @ Errno_Error err"

text \<open>The message and what the program hands to the mail server.\<close>

record Email =
  From :: string
  To :: "string list"
  Subject :: string
  Text :: string
  Attachments :: "(string \<times> string) list"

record PlainAuth =
  identity :: string
  username :: string
  password :: string
  host :: string

record tls_Config =
  InsecureSkipVerify :: bool
  ServerName :: string

text \<open>
  Everything the program does to the outside is recorded, in order, as an \<open>action\<close>: the
  call, its arguments and, where the program could look at it, the error it returned.
\<close>

datatype action =
    Sleep nat
  | Open string nat
  | SendWithTLS string PlainAuth tls_Config Email "string option"
  | MkdirAll string FileMode "string option"
  | Rename string string "string option"
  | Println string

text \<open>
  The world the program runs in: the working directory and the entries of the file system
  (keyed by their absolute path, as a list of names from the root; there are no links),
  the umask of the process, a clock in nanoseconds and the actions so far.
\<close>

record world =
  cwd :: "string list"
  nodes :: "string list \<rightharpoonup> FileInfo"
  umask :: FileMode
  now :: nat
  trace :: "action list"

definition emit :: "action \<Rightarrow> world \<Rightarrow> world" where
  "emit a w = w\<lparr>trace := trace w @ [a]\<rparr>"

definition Second :: nat where
  "Second = 1000000000"

definition time_Sleep :: "nat \<Rightarrow> world \<Rightarrow> world" where
  "time_Sleep d w = emit (Sleep d) (w\<lparr>now := now w + d\<rparr>)"

text \<open>
  \<open>log.Println\<close> writes one entry: its operands separated by spaces, then a newline
  (the date and time that the logger puts in front are left out).
\<close>

definition fmt_Sprintln :: "string list \<Rightarrow> string" where
  "fmt_Sprintln operands = strings_Join operands '' '' @ [CHR 0x0A]"

definition log_Println :: "world \<Rightarrow> string list \<Rightarrow> world" where
  "log_Println w operands = emit (Println (fmt_Sprintln operands)) w"

text \<open>
  Path resolution: a relative path starts at the working directory, empty elements and
  \<open>.\<close> are skipped, and \<open>..\<close> steps up one name (the file system has no links).
\<close>

definition enter :: "string list \<Rightarrow> string \<Rightarrow> string list" where
  "enter dir e =
     (if e = [] \<or> e = ''.'' then dir
      else if e = ''..'' then butlast dir
      else dir @ [e])"

definition resolve :: "world \<Rightarrow> string \<Rightarrow> string list" where
  "resolve w path =
     foldl enter (if path \<noteq> [] \<and> IsPathSeparator (hd path) then [] else cwd w)
       (elements path)"

definition root_dir :: FileInfo where
  "root_dir = \<lparr>Mode = ModeDir OR 0x1ED, Data = []\<rparr>" \<comment> \<open>octal 0755\<close>

definition node_at :: "world \<Rightarrow> string list \<Rightarrow> FileInfo option" where
  "node_at w p = (if p = [] then Some root_dir else nodes w p)"

definition os_Stat :: "world \<Rightarrow> string \<Rightarrow> Errno + FileInfo" where
  "os_Stat w name =
     (case node_at w (resolve w name) of
        None \<Rightarrow> Inl ENOENT
      | Some fi \<Rightarrow> Inr fi)"

text \<open>
  \<open>mkdir(2)\<close>: the parent must be a directory and the name free; the new directory gets
  the permission bits asked for, less those of the umask.
\<close>

definition os_Mkdir :: "world \<Rightarrow> string list \<Rightarrow> FileMode \<Rightarrow> world \<times> Errno option" where
  "os_Mkdir w p perm =
     (case node_at w (butlast p) of
        None \<Rightarrow> (w, Some ENOENT)
      | Some parent \<Rightarrow>
          if \<not> IsDir parent then (w, Some ENOTDIR)
          else (case node_at w p of
                  Some fi \<Rightarrow> (w, Some EEXIST)
                | None \<Rightarrow>
                    (w\<lparr>nodes := (nodes w)(p \<mapsto>
                         \<lparr>Mode = ModeDir OR (perm AND ModePerm AND NOT (umask w)),
                          Data = []\<rparr>)\<rparr>, None)))"

text \<open>
  \<open>os.MkdirAll\<close>: nothing to do for a directory, an error for another kind of entry;
  otherwise the parent is made first and then the directory itself. The recursion runs
  over the resolved path, its last name first; the root always exists.
\<close>

fun mkdir_all :: "world \<Rightarrow> string list \<Rightarrow> FileMode \<Rightarrow> world \<times> Errno option" where
  "mkdir_all w [] perm = (w, None)"
| "mkdir_all w (name # rparent) perm =
     (case node_at w (rev (name # rparent)) of
        Some dir \<Rightarrow> if IsDir dir then (w, None) else (w, Some ENOTDIR)
      | None \<Rightarrow>
          (case mkdir_all w rparent perm of
             (w', Some err) \<Rightarrow> (w', Some err)
           | (w', None) \<Rightarrow> os_Mkdir w' (rev (name # rparent)) perm))"

definition os_MkdirAll :: "world \<Rightarrow> string \<Rightarrow> FileMode \<Rightarrow> world \<times> string option" where
  "os_MkdirAll w path perm =
     (case mkdir_all w (rev (resolve w path)) perm of
        (w', res) \<Rightarrow>
          (let err = map_option (PathError ''mkdir'' path) res
           in (emit (MkdirAll path perm err) w', err)))"

text \<open>
  \<open>os.Rename\<close>. Go refuses a new name that is an existing directory; otherwise
  \<open>rename(2)\<close> moves the entry (with what lies below it) and replaces the entry at the
  new name.
\<close>

definition is_under :: "string list \<Rightarrow> string list \<Rightarrow> bool" where
  "is_under d p = (take (length d) p = d)"

definition rename_nodes ::
  "(string list \<rightharpoonup> FileInfo) \<Rightarrow> string list \<Rightarrow> string list \<Rightarrow> (string list \<rightharpoonup> FileInfo)" where
  "rename_nodes m old new =
     (\<lambda>p. if is_under new p then m (old @ drop (length new) p)
          else if is_under old p then None
          else m p)"

definition sys_Rename :: "world \<Rightarrow> string list \<Rightarrow> string list \<Rightarrow> world \<times> Errno option" where
  "sys_Rename w old new =
     (case node_at w old of
        None \<Rightarrow> (w, Some ENOENT)
      | Some src \<Rightarrow>
          if old = new then (w, None)
          else (case node_at w (butlast new) of
                  None \<Rightarrow> (w, Some ENOENT)
                | Some parent \<Rightarrow>
                    if \<not> IsDir parent then (w, Some ENOTDIR)
                    else if IsDir src \<and> node_at w new \<noteq> None then (w, Some ENOTDIR)
                    else if is_under old new then (w, Some EINVAL)
                    else (w\<lparr>nodes := rename_nodes (nodes w) old new\<rparr>, None)))"

definition file_rename :: "world \<Rightarrow> string \<Rightarrow> string \<Rightarrow> world \<times> Errno option" where
  "file_rename w oldname newname =
     (let old = resolve w oldname;
          new = resolve w newname;
          new_is_dir = (case node_at w new of None \<Rightarrow> False | Some fi \<Rightarrow> IsDir fi)
      in if new_is_dir then
           (case node_at w old of
              None \<Rightarrow> (w, Some ENOENT)
            | Some ofi \<Rightarrow>
                if newname = oldname \<or> old \<noteq> new then (w, Some EEXIST)
                else sys_Rename w old new)
         else sys_Rename w old new)"

definition os_Rename :: "world \<Rightarrow> string \<Rightarrow> string \<Rightarrow> world \<times> string option" where
  "os_Rename w oldname newname =
     (case file_rename w oldname newname of
        (w', res) \<Rightarrow>
          (let err = map_option (LinkError ''rename'' oldname newname) res
           in (emit (Rename oldname newname err) w', err)))"

subsection \<open>Library: viper, the email package and fsnotify\<close>

text \<open>The configuration file, by the keys the program reads.\<close>

record config =
  watch_folder :: string
  watch_filetypes :: "string list"
  email_sender :: string
  email_addressees :: "string list"
  smtp_host :: string
  smtp_port :: string
  smtp_username :: string
  smtp_password :: string

text \<open>
  \<open>(*Email).AttachFile\<close> opens the file and reads it into a new attachment named after
  the file. The \<open>Open\<close> action carries the time of the call.
\<close>

definition email_AttachFile :: "world \<Rightarrow> Email \<Rightarrow> string \<Rightarrow> world \<times> (string + Email)" where
  "email_AttachFile w em filename =
     (let w' = emit (Open filename (now w)) w
      in case os_Stat w filename of
           Inl err \<Rightarrow> (w', Inl (PathError ''open'' filename err))
         | Inr fi \<Rightarrow>
             if IsDir fi then (w', Inl (PathError ''read'' filename EISDIR))
             else (w', Inr (em\<lparr>Attachments :=
                                  Attachments em @ [(filepath_Base filename, Data fi)]\<rparr>)))"

text \<open>
  The mail server is a parameter: given the time of the attempt, the address, the
  credentials, the TLS settings and the message, it answers with an error or with none.
\<close>

type_synonym mail_server =
  "nat \<Rightarrow> string \<Rightarrow> PlainAuth \<Rightarrow> tls_Config \<Rightarrow> Email \<Rightarrow> string option"

definition email_SendWithTLS ::
  "mail_server \<Rightarrow> world \<Rightarrow> Email \<Rightarrow> string \<Rightarrow> PlainAuth \<Rightarrow> tls_Config \<Rightarrow> world \<times> string option" where
  "email_SendWithTLS server w em addr auth t =
     (let err = server (now w) addr auth t em
      in (emit (SendWithTLS addr auth t em err) w, err))"

text \<open>
  fsnotify: \<open>Op\<close> is a \<open>uint32\<close> bit set, an \<open>Event\<close> a name with its operations, and
  \<open>Has\<close> tests for an operation (\<open>o&h == h\<close>; for a single bit such as \<open>Create\<close> this
  is the same as \<open>o&h != 0\<close>, which later releases use).
\<close>

type_synonym Op = "32 word"

definition Create :: Op where "Create = 1"
definition Write :: Op where "Write = 2"
definition Remove :: Op where "Remove = 4"
definition Rename_op :: Op where "Rename_op = 8"
definition Chmod :: Op where "Chmod = 16"

record Event =
  Name :: string
  Op :: Op

definition Has :: "Event \<Rightarrow> Op \<Rightarrow> bool" where
  "Has event h = (Op event AND h = h)"

subsection \<open>\<open>IsFile\<close> and \<open>EmailFile\<close>\<close>

text \<open>
  \<^verbatim>\<open>
  func IsFile(path string) bool {
      fileInfo, err := os.Stat(path)
      return err == nil && !fileInfo.IsDir()
  }
  \<close>
\<close>

definition IsFile :: "world \<Rightarrow> string \<Rightarrow> bool" where
  "IsFile w path =
     (case os_Stat w path of
        Inl err \<Rightarrow> False
      | Inr fileInfo \<Rightarrow> \<not> IsDir fileInfo)"

text \<open>
  \<^verbatim>\<open>
  func EmailFile(file string) error {
      time.Sleep(time.Second)
      base := filepath.Base(file)
      em := email.NewEmail()
      em.From = viper.GetString("email.sender")
      em.To = viper.GetStringSlice("email.addressees")
      em.Subject = base
      em.Text = []byte(base)
      if _, err := em.AttachFile(file); err != nil {
          return fmt.Errorf("attach file %s\n error: %s", base, err.Error())
      }
      host := viper.GetString("smtp.host")
      port := viper.GetString("smtp.port")
      username := viper.GetString("smtp.username")
      password := viper.GetString("smtp.password")
      t := &tls.Config{InsecureSkipVerify: true, ServerName: host}
      auth := smtp.PlainAuth("", username, password, host)
      if err := em.SendWithTLS(host+":"+port, auth, t); err != nil {
          return fmt.Errorf("send file %s\n error: %s", base, err.Error())
      }
      return nil
  }
  \<close>
  The result is the new world and the error, \<open>None\<close> for \<open>nil\<close>.
\<close>

definition EmailFile :: "config \<Rightarrow> mail_server \<Rightarrow> world \<Rightarrow> string \<Rightarrow> world \<times> string option" where
  "EmailFile cfg server w file =
     (let w1 = time_Sleep Second w;
          base = filepath_Base file;
          em = \<lparr>From = email_sender cfg, To = email_addressees cfg,
                Subject = base, Text = base, Attachments = []\<rparr>
      in case email_AttachFile w1 em file of
           (w2, Inl err) \<Rightarrow>
             (w2, Some (''attach file '' @ base @ [CHR 0x0A] @ '' error: '' @ err))
         | (w2, Inr em') \<Rightarrow>
             (let host = smtp_host cfg;
                  port = smtp_port cfg;
                  username = smtp_username cfg;
                  password = smtp_password cfg;
                  t = \<lparr>InsecureSkipVerify = True, ServerName = host\<rparr>;
                  auth = \<lparr>identity = [], username = username, password = password,
                          host = host\<rparr>
              in case email_SendWithTLS server w2 em' (host @ '':'' @ port) auth t of
                   (w3, Some err) \<Rightarrow>
                     (w3, Some (''send file '' @ base @ [CHR 0x0A] @ '' error: '' @ err))
                 | (w3, None) \<Rightarrow> (w3, None)))"

subsection \<open>The goroutine of \<open>main\<close>\<close>

text \<open>
  \<^verbatim>\<open>
  watch := viper.GetString("watch.folder")
  filetypes := viper.GetStringSlice("watch.filetypes")
  go func() {
      for {
          select {
          case event, ok := <-watcher.Events:
              if !ok {
                  return
              }
              if event.Has(fsnotify.Create) {
                  base := filepath.Base(event.Name)
                  if IsFile(event.Name) {
                      if ExtensionMatched(filetypes, filepath.Ext(event.Name)) {
                          err := EmailFile(event.Name)
                          if err != nil {
                              log.Println(err)
                              break
                          }
                          log.Println("File:", base, "has been sent to addressees")
                          os.MkdirAll(filepath.Join(watch, "save"), 0750)
                          os.Rename(event.Name, filepath.Join(watch, "save", base))
                      } else {
                          log.Println("File:", base, "has been ignored by extension")
                      }
                  }
              }
          case err, ok := <-watcher.Errors:
              if !ok {
                  return
              }
              log.Println("Watcher error:", err)
          }
      }
  }()
  \<close>
  \<open>on_event\<close> is the body of the first case for a received event, \<open>on_error\<close> that of the
  second for a received error. The \<open>break\<close> leaves the \<open>select\<close>, not the \<open>for\<close>. The
  results of \<open>os.MkdirAll\<close> and \<open>os.Rename\<close> are dropped.
\<close>

definition on_event ::
  "config \<Rightarrow> 're regexp_pkg \<Rightarrow> mail_server \<Rightarrow> world \<Rightarrow> Event \<Rightarrow> world" where
  "on_event cfg rx server w event =
     (let watch = watch_folder cfg;
          filetypes = watch_filetypes cfg
      in if Has event Create then
           (let base = filepath_Base (Name event)
            in if IsFile w (Name event) then
                 (if ExtensionMatched rx filetypes (filepath_Ext (Name event)) then
                    (case EmailFile cfg server w (Name event) of
                       (w1, Some err) \<Rightarrow> log_Println w1 [err]
                     | (w1, None) \<Rightarrow>
                         (let w2 = log_Println w1
                                     [''File:'', base, ''has been sent to addressees''];
                              w3 = fst (os_MkdirAll w2 (filepath_Join [watch, ''save''])
                                          0x1E8); \<comment> \<open>octal 0750\<close>
                              w4 = fst (os_Rename w3 (Name event)
                                          (filepath_Join [watch, ''save'', base]))
                          in w4))
                  else log_Println w [''File:'', base, ''has been ignored by extension''])
               else w)
         else w)"

definition on_error :: "world \<Rightarrow> string \<Rightarrow> world" where
  "on_error w err = log_Println w [''Watcher error:'', err]"

text \<open>
  What one \<open>select\<close> can receive: an event, an error, or the news that one of the two
  channels is closed. The loop runs over the sequence of receptions; at its end the
  goroutine has either returned or waits in \<open>select\<close> for the next one.
\<close>

datatype received =
    Events_recv Event
  | Events_closed
  | Errors_recv string
  | Errors_closed

datatype goroutine = Returned | Selecting

fun main_loop ::
  "config \<Rightarrow> 're regexp_pkg \<Rightarrow> mail_server \<Rightarrow> world \<Rightarrow> received list \<Rightarrow> world \<times> goroutine" where
  "main_loop cfg rx server w [] = (w, Selecting)"
| "main_loop cfg rx server w (Events_closed # rest) = (w, Returned)"
| "main_loop cfg rx server w (Errors_closed # rest) = (w, Returned)"
| "main_loop cfg rx server w (Events_recv event # rest) =
     main_loop cfg rx server (on_event cfg rx server w event) rest"
| "main_loop cfg rx server w (Errors_recv err # rest) =
     main_loop cfg rx server (on_error w err) rest"

subsection \<open>Reading the trace\<close>

definition emitted :: "world \<Rightarrow> world \<Rightarrow> action list" where
  "emitted w w' = drop (length (trace w)) (trace w')"



fun is_transfer :: "action \<Rightarrow> bool" where
  "is_transfer (Sleep d) = True"
| "is_transfer (Open path time) = True"
| "is_transfer (SendWithTLS addr auth t em err) = True"
| "is_transfer a = False"

fun log_lines :: "action list \<Rightarrow> string list" where
  "log_lines [] = []"
| "log_lines (Println line # as) = line # log_lines as"
| "log_lines (a # as) = log_lines as"

text \<open>The actions of one call of \<open>EmailFile\<close>.\<close>

definition transfer_actions :: "config \<Rightarrow> mail_server \<Rightarrow> world \<Rightarrow> string \<Rightarrow> action list" where
  "transfer_actions cfg server w file = emitted w (fst (EmailFile cfg server w file))"

text \<open>The \<open>SendWithTLS\<close> action of \<open>EmailFile\<close> on a file it could read.\<close>

definition outgoing :: "config \<Rightarrow> mail_server \<Rightarrow> world \<Rightarrow> string \<Rightarrow> FileInfo \<Rightarrow> action" where
  "outgoing cfg server w file fi =
     (let host = smtp_host cfg;
          addr = host @ '':'' @ smtp_port cfg;
          auth = \<lparr>identity = [], username = smtp_username cfg, password = smtp_password cfg,
                  host = host\<rparr>;
          t = \<lparr>InsecureSkipVerify = True, ServerName = host\<rparr>;
          em = \<lparr>From = email_sender cfg, To = email_addressees cfg,
                Subject = filepath_Base file, Text = filepath_Base file,
                Attachments = [(filepath_Base file, Data fi)]\<rparr>
      in SendWithTLS addr auth t em (server (now w + Second) addr auth t em))"

text \<open>The actions of the loop on one event.\<close>

definition event_actions ::
  "config \<Rightarrow> 're regexp_pkg \<Rightarrow> mail_server \<Rightarrow> world \<Rightarrow> Event \<Rightarrow> action list" where
  "event_actions cfg rx server w event = emitted w (on_event cfg rx server w event)"

text \<open>
  The specification's reading of the matcher's argument: the extension with a single
  leading dot stripped.
\<close>

definition without_leading_dot :: "string \<Rightarrow> string" where
  "without_leading_dot e =
     (case e of
        [] \<Rightarrow> []
      | c # s \<Rightarrow> if c = CHR ''.'' then s else c # s)"



text \<open>
  A file system is well formed when every entry lies in a directory. The worlds the
  program meets are; the model does not depend on it, some properties do.
\<close>

definition well_formed :: "world \<Rightarrow> bool" where
  "well_formed w =
     (\<forall>p fi. nodes w p = Some fi \<longrightarrow> p \<noteq> [] \<and>
        (\<exists>d. node_at w (butlast p) = Some d \<and> IsDir d))"

text \<open>Permission bits, read as the specification words them.\<close>

definition owner_rwx :: "FileMode \<Rightarrow> bool" where
  "owner_rwx m = (m AND 0x1C0 = 0x1C0)" \<comment> \<open>octal 0700\<close>

definition group_rwx :: "FileMode \<Rightarrow> bool" where
  "group_rwx m = (m AND 0x38 = 0x38)" \<comment> \<open>octal 0070\<close>

definition group_rx_only :: "FileMode \<Rightarrow> bool" where
  "group_rx_only m = (m AND 0x38 = 0x28)" \<comment> \<open>octal 0070, 0050\<close>

definition others_none :: "FileMode \<Rightarrow> bool" where
  "others_none m = (m AND 0x7 = 0)" \<comment> \<open>octal 0007\<close>

subsection \<open>A scenario to run the model on\<close>

text \<open>
  The scenario of the specification: the folder \<open>watch\<close> under the working directory
  \<open>/home\<close> holds \<open>report.zip\<close> and \<open>notes.txt\<close>, the allow-list is \<open>zip\<close>, \<open>rar\<close>, and the
  recipient is \<open>a@x.com\<close>.
\<close>

definition scenario_config :: config where
  "scenario_config =
     \<lparr>watch_folder = ''watch'', watch_filetypes = [''zip'', ''rar''],
      email_sender = ''fm@x.com'', email_addressees = [''a@x.com''],
      smtp_host = ''mail.x.com'', smtp_port = ''465'',
      smtp_username = ''fm'', smtp_password = ''secret''\<rparr>"

definition regular :: "string \<Rightarrow> FileInfo" where
  "regular content = \<lparr>Mode = 0x1A4, Data = content\<rparr>" \<comment> \<open>octal 0644\<close>

definition directory :: FileInfo where
  "directory = \<lparr>Mode = ModeDir OR 0x1ED, Data = []\<rparr>" \<comment> \<open>octal 0755\<close>

definition named_pipe :: FileInfo where
  "named_pipe = \<lparr>Mode = ModeNamedPipe OR 0x1A4, Data = []\<rparr>"

definition scenario_world :: world where
  "scenario_world =
     \<lparr>cwd = [''home''],
      nodes = [[''home''] \<mapsto> directory,
               [''home'', ''watch''] \<mapsto> directory,
               [''home'', ''watch'', ''report.zip''] \<mapsto> regular ''PK'',
               [''home'', ''watch'', ''notes.txt''] \<mapsto> regular ''hello''],
      umask = 0x12, \<comment> \<open>octal 022\<close>
      now = 0,
      trace = []\<rparr>"

text \<open>The same folder, where \<open>watch/save\<close> already exists as a regular file.\<close>

definition blocked_world :: world where
  "blocked_world =
     scenario_world\<lparr>nodes := (nodes scenario_world)
        ([''home'', ''watch'', ''save''] \<mapsto> regular ''notes to self'')\<rparr>"

text \<open>The same folder, with a named pipe \<open>queue.txt\<close> made in it.\<close>

definition pipe_world :: world where
  "pipe_world =
     scenario_world\<lparr>nodes := (nodes scenario_world)
        ([''home'', ''watch'', ''queue.txt''] \<mapsto> named_pipe)\<rparr>"

definition accepting :: mail_server where
  "accepting time addr auth t em = None"

definition refusing :: mail_server where
  "refusing time addr auth t em = Some ''dial tcp: connection refused''"

definition created :: "string \<Rightarrow> Event" where
  "created name = \<lparr>Name = name, Op = Create\<rparr>"

section \<open>Properties\<close>

subsection \<open>The extension matcher\<close>

lemma TrimPrefix_dot: "strings_TrimPrefix e ''.'' = without_leading_dot e"
  by (cases e) (simp_all add: strings_TrimPrefix_def strings_HasPrefix_def without_leading_dot_def)

lemma MatchString_matched:
  "fst (regexp_MatchString rx p x) = (\<exists>re. rx_Compile rx p = Inr re \<and> rx_Match rx re x)"
  by (auto simp: regexp_MatchString_def split: sum.splits)

lemma range_templates_result:
  "fst (range_templates rx x P) = (\<exists>p \<in> set P. fst (regexp_MatchString rx p x))"
  by (induction P) (auto split: prod.splits)

lemma range_templates_tried:
  "snd (range_templates rx x P) =
     takeWhile (\<lambda>p. \<not> fst (regexp_MatchString rx p x)) P
     @ take 1 (dropWhile (\<lambda>p. \<not> fst (regexp_MatchString rx p x)) P)"
  by (induction P) (auto split: prod.splits)

text \<open>
  C2. \<open>ExtensionMatched P e\<close> is true exactly when some pattern of \<open>P\<close> compiles to a
  regular expression that matches \<open>e\<close> without its leading dot. The patterns handed to the
  engine are, in order, those before the first match and then that match, and no other:
  evaluation stops at the first match. For the empty \<open>P\<close> the result is false.
\<close>

theorem ExtensionMatched_any_pattern:
  "(ExtensionMatched rx P e =
      (\<exists>p \<in> set P. \<exists>re. rx_Compile rx p = Inr re \<and> rx_Match rx re (without_leading_dot e)))
   \<and> ExtensionMatched_tried rx P e =
       takeWhile (\<lambda>p. \<not> fst (regexp_MatchString rx p (without_leading_dot e))) P
       @ take 1 (dropWhile (\<lambda>p. \<not> fst (regexp_MatchString rx p (without_leading_dot e))) P)
   \<and> \<not> ExtensionMatched rx [] e"
  by (simp add: ExtensionMatched_def ExtensionMatched_tried_def TrimPrefix_dot
      range_templates_result range_templates_tried MatchString_matched)

theorem ExtensionMatched_any_pattern_witness:
  "ExtensionMatched literal_regexp [''rar'', ''ip'', ''zip''] ''.zip''
   \<and> ExtensionMatched_tried literal_regexp [''rar'', ''ip'', ''zip''] ''.zip'' = [''rar'', ''ip'']
   \<and> \<not> ExtensionMatched literal_regexp [''rar'', ''txt''] ''.zip''"
  using ExtensionMatched_any_pattern [of literal_regexp "[''rar'', ''ip'', ''zip'']" "''.zip''"]
    ExtensionMatched_any_pattern [of literal_regexp "[''rar'', ''txt'']" "''.zip''"]
  by (simp add: regexp_MatchString_def literal_regexp_def literal_Compile_def
      without_leading_dot_def)

text \<open>
  C6. A pattern that does not compile counts as a pattern that does not match, at its
  position only: the result is the one of the list without it, and when the loop reaches
  it the patterns after it are evaluated as if the list began with them. The matcher is
  a total function into the truth values, so there is no error to return.
\<close>

theorem malformed_pattern_skipped:
  assumes "rx_Compile rx p = Inl err"
  shows "ExtensionMatched rx (ps @ p # qs) e = ExtensionMatched rx (ps @ qs) e
         \<and> ExtensionMatched_tried rx (p # qs) e = p # ExtensionMatched_tried rx qs e"
proof -
  have miss: "regexp_MatchString rx p x = (False, Some err)" for x
    using assms by (simp add: regexp_MatchString_def)
  have "ExtensionMatched rx (ps @ p # qs) e = ExtensionMatched rx (ps @ qs) e"
    by (auto simp: ExtensionMatched_def range_templates_result miss)
  moreover have "ExtensionMatched_tried rx (p # qs) e = p # ExtensionMatched_tried rx qs e"
    by (simp add: ExtensionMatched_tried_def miss split: prod.splits)
  ultimately show ?thesis by simp
qed

theorem malformed_pattern_skipped_witness:
  "rx_Compile literal_regexp ''('' = Inl ''error parsing regexp: (''
   \<and> ExtensionMatched literal_regexp ([''rar''] @ ''('' # [''zip'']) ''.zip''
   \<and> ExtensionMatched_tried literal_regexp (''('' # [''zip'']) ''.zip'' = [''('', ''zip'']"
proof -
  have c: "rx_Compile literal_regexp ''('' = Inl ''error parsing regexp: (''"
    by (simp add: literal_regexp_def literal_Compile_def)
  show ?thesis
    using c malformed_pattern_skipped [OF c, of "[''rar'']" "[''zip'']" "''.zip''"]
    by (simp add: ExtensionMatched_def ExtensionMatched_tried_def regexp_MatchString_def
        strings_TrimPrefix_def strings_HasPrefix_def literal_regexp_def literal_Compile_def)
qed

subsection \<open>Frames and traces\<close>

lemma emit_fields:
  "trace (emit a w) = trace w @ [a]" "nodes (emit a w) = nodes w" "cwd (emit a w) = cwd w"
  "umask (emit a w) = umask w" "now (emit a w) = now w"
  by (simp_all add: emit_def)

lemma log_Println_fields:
  "trace (log_Println w ops) = trace w @ [Println (fmt_Sprintln ops)]"
  "nodes (log_Println w ops) = nodes w" "cwd (log_Println w ops) = cwd w"
  "umask (log_Println w ops) = umask w" "now (log_Println w ops) = now w"
  by (simp_all add: log_Println_def emit_fields)

lemma os_Mkdir_frame:
  "trace (fst (os_Mkdir w p perm)) = trace w \<and> cwd (fst (os_Mkdir w p perm)) = cwd w
   \<and> umask (fst (os_Mkdir w p perm)) = umask w \<and> now (fst (os_Mkdir w p perm)) = now w"
  by (simp add: os_Mkdir_def split: option.splits)

lemma mkdir_all_frame:
  "trace (fst (mkdir_all w rp perm)) = trace w \<and> cwd (fst (mkdir_all w rp perm)) = cwd w
   \<and> umask (fst (mkdir_all w rp perm)) = umask w \<and> now (fst (mkdir_all w rp perm)) = now w"
proof (induction rp)
  case Nil
  show ?case by simp
next
  case (Cons name rparent)
  obtain w' r where m: "mkdir_all w rparent perm = (w', r)" by (cases "mkdir_all w rparent perm")
  with Cons have f: "trace w' = trace w" "cwd w' = cwd w" "umask w' = umask w" "now w' = now w"
    by simp_all
  show ?case
    using os_Mkdir_frame [of w' "rev (name # rparent)" perm]
    by (simp add: m f split: option.splits)
qed

lemma os_MkdirAll_fields:
  "trace (fst (os_MkdirAll w path perm)) = trace w @ [MkdirAll path perm (snd (os_MkdirAll w path perm))]"
  "cwd (fst (os_MkdirAll w path perm)) = cwd w"
  "umask (fst (os_MkdirAll w path perm)) = umask w"
  "now (fst (os_MkdirAll w path perm)) = now w"
proof -
  obtain w' r where m: "mkdir_all w (rev (resolve w path)) perm = (w', r)"
    by (cases "mkdir_all w (rev (resolve w path)) perm")
  have f: "trace w' = trace w" "cwd w' = cwd w" "umask w' = umask w" "now w' = now w"
    using mkdir_all_frame [of w "rev (resolve w path)" perm] by (simp_all add: m)
  show "trace (fst (os_MkdirAll w path perm)) = trace w @ [MkdirAll path perm (snd (os_MkdirAll w path perm))]"
    "cwd (fst (os_MkdirAll w path perm)) = cwd w"
    "umask (fst (os_MkdirAll w path perm)) = umask w"
    "now (fst (os_MkdirAll w path perm)) = now w"
    by (simp_all add: os_MkdirAll_def m f emit_fields Let_def)
qed

lemma sys_Rename_frame:
  "trace (fst (sys_Rename w old new)) = trace w \<and> cwd (fst (sys_Rename w old new)) = cwd w
   \<and> umask (fst (sys_Rename w old new)) = umask w \<and> now (fst (sys_Rename w old new)) = now w"
  by (simp add: sys_Rename_def split: option.splits)

lemma file_rename_frame:
  "trace (fst (file_rename w old new)) = trace w \<and> cwd (fst (file_rename w old new)) = cwd w
   \<and> umask (fst (file_rename w old new)) = umask w \<and> now (fst (file_rename w old new)) = now w"
  by (simp add: file_rename_def Let_def sys_Rename_frame split: option.splits)

lemma os_Rename_fields:
  "trace (fst (os_Rename w old new)) = trace w @ [Rename old new (snd (os_Rename w old new))]"
  "cwd (fst (os_Rename w old new)) = cwd w"
  "umask (fst (os_Rename w old new)) = umask w"
  "now (fst (os_Rename w old new)) = now w"
proof -
  obtain w' r where m: "file_rename w old new = (w', r)"
    by (cases "file_rename w old new")
  have f: "trace w' = trace w" "cwd w' = cwd w" "umask w' = umask w" "now w' = now w"
    using file_rename_frame [of w old new] by (simp_all add: m)
  show "trace (fst (os_Rename w old new)) = trace w @ [Rename old new (snd (os_Rename w old new))]"
    "cwd (fst (os_Rename w old new)) = cwd w"
    "umask (fst (os_Rename w old new)) = umask w"
    "now (fst (os_Rename w old new)) = now w"
    by (simp_all add: os_Rename_def m f emit_fields Let_def)
qed



lemma emitted_append: "trace w' = trace w @ xs \<Longrightarrow> emitted w w' = xs"
  by (simp add: emitted_def)

lemma os_Stat_frame:
  "os_Stat (emit a (w\<lparr>now := t\<rparr>)) name = os_Stat w name"
  by (simp add: os_Stat_def node_at_def resolve_def emit_def)

lemma EmailFile_unfold:
  "trace (fst (EmailFile cfg server w file)) =
     trace w @ Sleep Second # Open file (now w + Second) #
       (case os_Stat w file of
          Inl err \<Rightarrow> []
        | Inr fi \<Rightarrow> if IsDir fi then [] else [outgoing cfg server w file fi])"
  by (simp add: EmailFile_def email_AttachFile_def email_SendWithTLS_def time_Sleep_def
      emit_fields os_Stat_frame outgoing_def Let_def split: sum.splits option.splits)


lemma transfer_actions_unfold:
  "transfer_actions cfg server w file =
     Sleep Second # Open file (now w + Second) #
       (case os_Stat w file of
          Inl err \<Rightarrow> []
        | Inr fi \<Rightarrow> if IsDir fi then [] else [outgoing cfg server w file fi])"
  unfolding transfer_actions_def by (rule emitted_append) (rule EmailFile_unfold)

lemma EmailFile_trace_eq:
  "trace (fst (EmailFile cfg server w file)) = trace w @ transfer_actions cfg server w file"
  by (simp add: EmailFile_unfold transfer_actions_unfold)

lemma is_transfer_outgoing: "is_transfer (outgoing cfg server w file fi)"
  by (simp add: outgoing_def Let_def)

lemma outgoing_not_Open: "outgoing cfg server w file fi \<noteq> Open p t"
  by (simp add: outgoing_def Let_def)

lemma transfer_actions_transfer:
  "a \<in> set (transfer_actions cfg server w file) \<Longrightarrow> is_transfer a"
  by (auto simp: transfer_actions_unfold is_transfer_outgoing split: sum.splits if_splits)



text \<open>The five ways through \<open>on_event\<close>, and the actions of each.\<close>

lemma on_event_other:
  "\<not> Has event Create \<Longrightarrow> on_event cfg rx server w event = w"
  by (simp add: on_event_def)

lemma on_event_not_file:
  "\<not> IsFile w (Name event) \<Longrightarrow> on_event cfg rx server w event = w"
  by (simp add: on_event_def Let_def)

lemma on_event_skipped:
  "Has event Create \<Longrightarrow> IsFile w (Name event) \<Longrightarrow>
   \<not> ExtensionMatched rx (watch_filetypes cfg) (filepath_Ext (Name event)) \<Longrightarrow>
   on_event cfg rx server w event =
     log_Println w [''File:'', filepath_Base (Name event), ''has been ignored by extension'']"
  by (simp add: on_event_def Let_def)

lemma on_event_failed:
  "Has event Create \<Longrightarrow> IsFile w (Name event) \<Longrightarrow>
   ExtensionMatched rx (watch_filetypes cfg) (filepath_Ext (Name event)) \<Longrightarrow>
   snd (EmailFile cfg server w (Name event)) = Some err \<Longrightarrow>
   on_event cfg rx server w event = log_Println (fst (EmailFile cfg server w (Name event))) [err]"
  by (cases "EmailFile cfg server w (Name event)") (simp add: on_event_def Let_def)

lemma on_event_sent:
  "Has event Create \<Longrightarrow> IsFile w (Name event) \<Longrightarrow>
   ExtensionMatched rx (watch_filetypes cfg) (filepath_Ext (Name event)) \<Longrightarrow>
   snd (EmailFile cfg server w (Name event)) = None \<Longrightarrow>
   on_event cfg rx server w event =
     fst (os_Rename
            (fst (os_MkdirAll
                    (log_Println (fst (EmailFile cfg server w (Name event)))
                       [''File:'', filepath_Base (Name event), ''has been sent to addressees''])
                    (filepath_Join [watch_folder cfg, ''save'']) 0x1E8))
            (Name event)
            (filepath_Join [watch_folder cfg, ''save'', filepath_Base (Name event)]))"
  by (cases "EmailFile cfg server w (Name event)") (simp add: on_event_def Let_def)

lemma event_actions_ignored:
  "\<not> (Has event Create \<and> IsFile w (Name event)) \<Longrightarrow> event_actions cfg rx server w event = []"
proof -
  assume "\<not> (Has event Create \<and> IsFile w (Name event))"
  then have "on_event cfg rx server w event = w"
    using on_event_other on_event_not_file by blast
  then show ?thesis
    by (simp add: event_actions_def emitted_def)
qed

lemma event_actions_skipped:
  assumes "Has event Create" "IsFile w (Name event)"
    "\<not> ExtensionMatched rx (watch_filetypes cfg) (filepath_Ext (Name event))"
  shows "event_actions cfg rx server w event =
        [Println (fmt_Sprintln [''File:'', filepath_Base (Name event),
                                     ''has been ignored by extension''])]"
  unfolding event_actions_def on_event_skipped [OF assms]
  by (rule emitted_append) (simp add: log_Println_fields)

lemma event_actions_failed:
  assumes "Has event Create" "IsFile w (Name event)"
    "ExtensionMatched rx (watch_filetypes cfg) (filepath_Ext (Name event))"
    "snd (EmailFile cfg server w (Name event)) = Some err"
  shows "event_actions cfg rx server w event =
          transfer_actions cfg server w (Name event) @ [Println (fmt_Sprintln [err])]"
  unfolding event_actions_def on_event_failed [OF assms]
  by (rule emitted_append) (simp add: log_Println_fields EmailFile_trace_eq)

lemma event_actions_sent:
  assumes "Has event Create" "IsFile w (Name event)"
    "ExtensionMatched rx (watch_filetypes cfg) (filepath_Ext (Name event))"
    "snd (EmailFile cfg server w (Name event)) = None"
  shows "\<exists>e1 e2. event_actions cfg rx server w event =
          transfer_actions cfg server w (Name event) @
            [Println (fmt_Sprintln [''File:'', filepath_Base (Name event),
                                          ''has been sent to addressees'']),
             MkdirAll (filepath_Join [watch_folder cfg, ''save'']) 0x1E8 e1,
             Rename (Name event)
               (filepath_Join [watch_folder cfg, ''save'', filepath_Base (Name event)]) e2]"
  unfolding event_actions_def on_event_sent [OF assms]
  by (intro exI, rule emitted_append)
     (simp add: os_Rename_fields os_MkdirAll_fields log_Println_fields EmailFile_trace_eq)

subsection \<open>The file system\<close>

text \<open>Mode bits.\<close>

lemma ModeDir_nonzero: "ModeDir \<noteq> 0"
  by (simp add: ModeDir_def)

lemma IsDir_made: "IsDir \<lparr>Mode = ModeDir OR x, Data = d\<rparr>"
proof -
  have "(ModeDir OR x) AND ModeDir = ModeDir"
    by (simp add: ac_simps)
  then show ?thesis
    by (simp add: IsDir_def ModeDir_nonzero)
qed

lemma IsDir_root: "IsDir root_dir"
  by (simp add: root_dir_def IsDir_made)

lemma and_push: "(a OR b) AND c = (a AND c) OR (b AND c)" for a b c :: FileMode
  by (simp add: bit.conj_disj_distrib2)

lemma and_swap: "(a AND b AND NOT u) AND c = (a AND b AND c) AND NOT u" for a b c u :: FileMode
  by (simp add: ac_simps)

lemma others_none_0750: "others_none (ModeDir OR (0x1E8 AND ModePerm AND NOT u))"
  by (simp add: others_none_def and_push and_swap ModeDir_def ModePerm_def)

lemma group_bits_0750:
  "(ModeDir OR (0x1E8 AND ModePerm AND NOT u)) AND 0x10 = 0"
  by (simp add: and_push and_swap ModeDir_def ModePerm_def)

lemma not_group_rwx_0750: "\<not> group_rwx (ModeDir OR (0x1E8 AND ModePerm AND NOT u))"
proof
  assume "group_rwx (ModeDir OR (0x1E8 AND ModePerm AND NOT u))"
  then have "(ModeDir OR (0x1E8 AND ModePerm AND NOT u)) AND 0x38 = 0x38"
    by (simp add: group_rwx_def)
  then have "((ModeDir OR (0x1E8 AND ModePerm AND NOT u)) AND 0x38) AND 0x10 = (0x38 :: FileMode) AND 0x10"
    by simp
  then have "(ModeDir OR (0x1E8 AND ModePerm AND NOT u)) AND (0x38 AND 0x10) = (0x38 :: FileMode) AND 0x10"
    by (simp only: and.assoc)
  then show False
    by (simp add: group_bits_0750)
qed

lemma perm_0750_umask:
  fixes u :: FileMode
  assumes "u AND 0x1E8 = 0"
  shows "0x1E8 AND ModePerm AND NOT u = 0x1E8"
proof -
  have p: "(0x1E8 :: FileMode) AND ModePerm = 0x1E8"
    by (simp add: ModePerm_def)
  have z: "(0x1E8 :: FileMode) AND u = 0"
    using assms by (simp add: and.commute)
  have "(0x1E8 :: FileMode) = 0x1E8 AND (u OR NOT u)"
    by simp
  also have "\<dots> = (0x1E8 AND u) OR (0x1E8 AND NOT u)"
    by (rule bit.conj_disj_distrib)
  also have "\<dots> = 0x1E8 AND NOT u"
    by (simp only: z or.left_neutral)
  finally have q: "(0x1E8 :: FileMode) AND NOT u = 0x1E8"
    by simp
  show ?thesis
    by (simp only: and.assoc [symmetric] p q)
qed

text \<open>Paths and well-formed worlds.\<close>

lemma is_under_refl: "is_under p p"
  by (simp add: is_under_def)

lemma is_under_snoc: "is_under p xs \<Longrightarrow> is_under p (xs @ [n])"
  by (auto simp: is_under_def) (metis nat_le_linear take_all)

lemma is_under_butlast: "is_under q (xs @ [n]) \<Longrightarrow> q \<noteq> xs @ [n] \<Longrightarrow> is_under q xs"
  by (cases "length q \<le> length xs") (auto simp: is_under_def)

lemma well_formed_cong:
  "nodes w' = nodes w \<Longrightarrow> well_formed w' = well_formed w"
  by (simp add: well_formed_def node_at_def)

lemma node_at_cong: "nodes w' = nodes w \<Longrightarrow> node_at w' p = node_at w p"
  by (simp add: node_at_def)


lemma well_formed_parent:
  "well_formed w \<Longrightarrow> node_at w (xs @ [n]) = Some fi \<Longrightarrow> \<exists>d. node_at w xs = Some d \<and> IsDir d"
  by (auto simp: well_formed_def node_at_def)

lemma well_formed_ancestor:
  "well_formed w \<Longrightarrow> node_at w p = Some fi \<Longrightarrow> is_under q p \<Longrightarrow> q \<noteq> p \<Longrightarrow>
   \<exists>d. node_at w q = Some d \<and> IsDir d"
proof (induction p arbitrary: fi rule: rev_induct)
  case Nil
  then show ?case by (simp add: is_under_def)
next
  case (snoc n xs)
  from snoc.prems obtain d where d: "node_at w xs = Some d" "IsDir d"
    using well_formed_parent by blast
  show ?case
  proof (cases "q = xs")
    case True
    with d show ?thesis by simp
  next
    case False
    from snoc.prems have "is_under q xs" by (simp add: is_under_butlast)
    with snoc.IH [OF snoc.prems(1) d(1) _ False] show ?thesis by simp
  qed
qed

text \<open>\<open>os.Mkdir\<close> and \<open>os.MkdirAll\<close>.\<close>

lemma os_Mkdir_kept:
  "node_at w q = Some fi \<Longrightarrow> node_at (fst (os_Mkdir w p perm)) q = Some fi"
  by (auto simp: os_Mkdir_def node_at_def split: option.splits)

lemma os_Mkdir_made:
  "node_at w q = None \<Longrightarrow> node_at (fst (os_Mkdir w p perm)) q = Some fi \<Longrightarrow>
   q = p \<and> fi = \<lparr>Mode = ModeDir OR (perm AND ModePerm AND NOT (umask w)), Data = []\<rparr>"
  by (auto simp: os_Mkdir_def node_at_def split: option.splits if_splits)

lemma os_Mkdir_ok:
  "snd (os_Mkdir w p perm) = None \<Longrightarrow>
   \<exists>d. node_at (fst (os_Mkdir w p perm)) p = Some d \<and> IsDir d"
  by (auto simp: os_Mkdir_def node_at_def IsDir_made split: option.splits if_splits)

lemma os_Mkdir_well_formed:
  "well_formed w \<Longrightarrow> well_formed (fst (os_Mkdir w p perm))"
  by (auto simp: os_Mkdir_def well_formed_def node_at_def IsDir_made split: option.splits if_splits)


lemma mkdir_all_kept:
  "node_at w q = Some fi \<Longrightarrow> node_at (fst (mkdir_all w rp perm)) q = Some fi"
proof (induction rp)
  case Nil
  then show ?case by simp
next
  case (Cons name rparent)
  obtain w' r where m: "mkdir_all w rparent perm = (w', r)"
    by (cases "mkdir_all w rparent perm")
  with Cons have "node_at w' q = Some fi" by simp
  then have "node_at (fst (os_Mkdir w' (rev (name # rparent)) perm)) q = Some fi"
    by (rule os_Mkdir_kept)
  with Cons.prems \<open>node_at w' q = Some fi\<close> show ?case
    by (simp add: m split: option.splits)
qed

lemma mkdir_all_made:
  "node_at w q = None \<Longrightarrow> node_at (fst (mkdir_all w rp perm)) q = Some fi \<Longrightarrow>
   is_under q (rev rp)
   \<and> fi = \<lparr>Mode = ModeDir OR (perm AND ModePerm AND NOT (umask w)), Data = []\<rparr>"
proof (induction rp arbitrary: fi)
  case Nil
  then show ?case by simp
next
  case (Cons name rparent)
  obtain w' r where m: "mkdir_all w rparent perm = (w', r)"
    by (cases "mkdir_all w rparent perm")
  have u: "umask w' = umask w"
    using mkdir_all_frame [of w rparent perm] by (simp add: m)
  show ?case
  proof (cases "node_at w' q")
    case None
    with Cons.prems have "node_at (fst (os_Mkdir w' (rev (name # rparent)) perm)) q = Some fi"
      by (auto simp: m split: option.splits if_splits)
    from os_Mkdir_made [OF None this] show ?thesis
      by (simp add: u is_under_refl)
  next
    case (Some fi')
    with Cons.IH Cons.prems(1) have a: "is_under q (rev rparent)"
      and b: "fi' = \<lparr>Mode = ModeDir OR (perm AND ModePerm AND NOT (umask w)), Data = []\<rparr>"
      by (simp_all add: m)
    have "node_at (fst (os_Mkdir w' (rev (name # rparent)) perm)) q = Some fi'"
      using Some by (rule os_Mkdir_kept)
    with Cons.prems Some have "fi = fi'"
      by (auto simp: m split: option.splits if_splits)
    with a b show ?thesis
      by (simp add: is_under_snoc)
  qed
qed

lemma mkdir_all_ok:
  "snd (mkdir_all w rp perm) = None \<Longrightarrow>
   \<exists>d. node_at (fst (mkdir_all w rp perm)) (rev rp) = Some d \<and> IsDir d"
proof (cases rp)
  case Nil
  then show ?thesis by (simp add: node_at_def IsDir_root)
next
  case (Cons name rparent)
  assume ok: "snd (mkdir_all w rp perm) = None"
  obtain w' r where m: "mkdir_all w rparent perm = (w', r)"
    by (cases "mkdir_all w rparent perm")
  show ?thesis
  proof (cases "node_at w (rev rp)")
    case (Some dir)
    with ok Cons show ?thesis
      by (auto split: if_splits)
  next
    case None
    with ok Cons m have "snd (os_Mkdir w' (rev rp) perm) = None"
      by (auto split: option.splits)
    from os_Mkdir_ok [OF this] None Cons m ok show ?thesis
      by (auto split: option.splits)
  qed
qed

lemma mkdir_all_well_formed:
  "well_formed w \<Longrightarrow> well_formed (fst (mkdir_all w rp perm))"
proof (induction rp)
  case Nil
  then show ?case by simp
next
  case (Cons name rparent)
  obtain w' r where m: "mkdir_all w rparent perm = (w', r)"
    by (cases "mkdir_all w rparent perm")
  with Cons have "well_formed w'" by simp
  then have "well_formed (fst (os_Mkdir w' (rev (name # rparent)) perm))"
    by (rule os_Mkdir_well_formed)
  with Cons.prems \<open>well_formed w'\<close> show ?case
    by (simp add: m split: option.splits)
qed

subsection \<open>The dispatch loop\<close>

text \<open>The definitions to unfold when the model is run on the scenario.\<close>

lemmas model_defs =
  event_actions_def on_event_def emitted_def Has_def Create_def created_def IsFile_def os_Stat_def
  node_at_def resolve_def enter_def IsPathSeparator_def IsDir_def ModeDir_def
  scenario_world_def blocked_world_def pipe_world_def scenario_config_def regular_def directory_def named_pipe_def
  ExtensionMatched_def strings_TrimPrefix_def strings_HasPrefix_def regexp_MatchString_def
  literal_regexp_def literal_Compile_def filepath_Ext_def filepath_Base_def
  EmailFile_def time_Sleep_def emit_def email_AttachFile_def email_SendWithTLS_def
  accepting_def refusing_def log_Println_def fmt_Sprintln_def
  os_MkdirAll_def os_Mkdir_def os_Rename_def file_rename_def sys_Rename_def rename_nodes_def is_under_def
  filepath_Join_def filepath_Clean_def Clean_element_def PathError_def LinkError_def
  ModePerm_def root_dir_def Let_def






lemma log_lines_append: "log_lines (xs @ ys) = log_lines xs @ log_lines ys"
  by (induction xs rule: log_lines.induct) simp_all

lemma log_lines_transfer: "log_lines (transfer_actions cfg server w file) = []"
  by (simp add: transfer_actions_unfold outgoing_def Let_def split: sum.splits)

lemma log_lines_on_error:
  "log_lines (emitted w (on_error w err)) = [fmt_Sprintln [''Watcher error:'', err]]"
  by (simp add: on_error_def emitted_def log_Println_fields)

lemma log_lines_event_actions:
  "log_lines (event_actions cfg rx server w event) =
     (if Has event Create \<and> IsFile w (Name event) then
        if ExtensionMatched rx (watch_filetypes cfg) (filepath_Ext (Name event)) then
          (case snd (EmailFile cfg server w (Name event)) of
             Some err \<Rightarrow> [fmt_Sprintln [err]]
           | None \<Rightarrow> [fmt_Sprintln [''File:'', filepath_Base (Name event),
                                      ''has been sent to addressees'']])
        else [fmt_Sprintln [''File:'', filepath_Base (Name event),
                            ''has been ignored by extension'']]
      else [])"
proof (cases "Has event Create \<and> IsFile w (Name event)")
  case False
  then have "event_actions cfg rx server w event = []"
    by (rule event_actions_ignored)
  with False show ?thesis by auto
next
  case g: True
  show ?thesis
  proof (cases "ExtensionMatched rx (watch_filetypes cfg) (filepath_Ext (Name event))")
    case False
    with g show ?thesis
      by (simp add: event_actions_skipped)
  next
    case m: True
    show ?thesis
    proof (cases "snd (EmailFile cfg server w (Name event))")
      case (Some err')
      with g m show ?thesis
        by (simp add: event_actions_failed log_lines_append log_lines_transfer)
    next
      case None
      with g m obtain e1 e2 where "event_actions cfg rx server w event =
        transfer_actions cfg server w (Name event) @
          [Println (fmt_Sprintln [''File:'', filepath_Base (Name event),
                                        ''has been sent to addressees'']),
           MkdirAll (filepath_Join [watch_folder cfg, ''save'']) 0x1E8 e1,
           Rename (Name event)
             (filepath_Join [watch_folder cfg, ''save'', filepath_Base (Name event)]) e2]"
        using event_actions_sent [of event w rx cfg server] by auto
      with g m None show ?thesis
        by (simp add: log_lines_append log_lines_transfer)
    qed
  qed
qed

text \<open>
  C4, as amended. An event that is sent, skipped by extension or whose transfer failed
  leaves exactly one log entry, and so does a watcher error; an event that is not a
  creation or not a file leaves none. The entries do not depend on what \<open>os.MkdirAll\<close> and
  \<open>os.Rename\<close> returned: a failed relocation adds no entry to the one that reports the
  file as sent.
\<close>

theorem one_log_line_per_outcome:
  "log_lines (event_actions cfg rx server w event) =
     (if Has event Create \<and> IsFile w (Name event) then
        if ExtensionMatched rx (watch_filetypes cfg) (filepath_Ext (Name event)) then
          (case snd (EmailFile cfg server w (Name event)) of
             Some err \<Rightarrow> [fmt_Sprintln [err]]
           | None \<Rightarrow> [fmt_Sprintln [''File:'', filepath_Base (Name event),
                                      ''has been sent to addressees'']])
        else [fmt_Sprintln [''File:'', filepath_Base (Name event),
                            ''has been ignored by extension'']]
      else [])
   \<and> log_lines (emitted w (on_error w err)) = [fmt_Sprintln [''Watcher error:'', err]]"
  using log_lines_event_actions [of cfg rx server w event] log_lines_on_error [of w err]
  by (rule conjI)

theorem one_log_line_per_outcome_witness:
  "log_lines (event_actions scenario_config literal_regexp accepting blocked_world
                (created ''watch/report.zip''))
     = [''File: report.zip has been sent to addressees'' @ [CHR 0x0A]]
   \<and> log_lines (event_actions scenario_config literal_regexp refusing scenario_world
                  (created ''watch/report.zip''))
     = [''send file report.zip'' @ [CHR 0x0A] @ '' error: dial tcp: connection refused''
          @ [CHR 0x0A]]
   \<and> log_lines (event_actions scenario_config literal_regexp accepting scenario_world
                  (created ''watch/notes.txt''))
     = [''File: notes.txt has been ignored by extension'' @ [CHR 0x0A]]
   \<and> log_lines (event_actions scenario_config literal_regexp accepting scenario_world
                  (created ''watch''))
     = []"
  using
    one_log_line_per_outcome [of scenario_config literal_regexp accepting blocked_world
      "created ''watch/report.zip''", THEN conjunct1]
    one_log_line_per_outcome [of scenario_config literal_regexp refusing scenario_world
      "created ''watch/report.zip''", THEN conjunct1]
    one_log_line_per_outcome [of scenario_config literal_regexp accepting scenario_world
      "created ''watch/notes.txt''", THEN conjunct1]
    one_log_line_per_outcome [of scenario_config literal_regexp accepting scenario_world
      "created ''watch''", THEN conjunct1]
  by (simp add: model_defs)

text \<open>
  C4 as stated fails where \<open>watch/save\<close> is a regular file: the directory cannot be made,
  the move fails, and the only log entry says that the file has been sent.
\<close>

theorem relocate_failure_not_logged:
  "event_actions scenario_config literal_regexp accepting blocked_world
     (created ''watch/report.zip'')
   = transfer_actions scenario_config accepting blocked_world ''watch/report.zip''
     @ [Println (''File: report.zip has been sent to addressees'' @ [CHR 0x0A]),
        MkdirAll ''watch/save'' 0x1E8 (Some ''mkdir watch/save: not a directory''),
        Rename ''watch/report.zip'' ''watch/save/report.zip''
          (Some ''rename watch/report.zip watch/save/report.zip: not a directory'')]
   \<and> log_lines (event_actions scenario_config literal_regexp accepting blocked_world
                  (created ''watch/report.zip''))
     = [''File: report.zip has been sent to addressees'' @ [CHR 0x0A]]"
  by (simp add: model_defs transfer_actions_def)

text \<open>
  C7, as amended. An event without the \<open>Create\<close> operation changes nothing and logs
  nothing. Before the extension is looked at, the path must be one that \<open>os.Stat\<close> finds
  and that is not a directory: a directory, or a path that cannot be stat-ed, changes
  nothing and logs nothing. Every other entry, regular file or not, goes on to the
  extension filter and leaves a log entry.
\<close>

theorem only_created_entries_processed:
  "(\<not> Has event Create \<longrightarrow>
      on_event cfg rx server w event = w \<and> event_actions cfg rx server w event = [])
   \<and> (IsFile w (Name event) \<longleftrightarrow> (\<exists>fi. os_Stat w (Name event) = Inr fi \<and> \<not> IsDir fi))
   \<and> (\<not> IsFile w (Name event) \<longrightarrow>
      on_event cfg rx server w event = w \<and> event_actions cfg rx server w event = [])
   \<and> (\<forall>fi. os_Stat w (Name event) = Inr fi \<and> IsDir fi \<longrightarrow>
      on_event cfg rx server w event = w \<and> event_actions cfg rx server w event = [])
   \<and> (Has event Create \<and> IsFile w (Name event) \<longrightarrow>
      log_lines (event_actions cfg rx server w event) \<noteq> [])"
proof -
  have 1: "\<not> Has event Create \<longrightarrow>
      on_event cfg rx server w event = w \<and> event_actions cfg rx server w event = []"
    by (simp add: on_event_other event_actions_ignored)
  have 2: "IsFile w (Name event) \<longleftrightarrow> (\<exists>fi. os_Stat w (Name event) = Inr fi \<and> \<not> IsDir fi)"
    by (simp add: IsFile_def split: sum.splits)
  have 3: "\<not> IsFile w (Name event) \<longrightarrow>
      on_event cfg rx server w event = w \<and> event_actions cfg rx server w event = []"
    by (simp add: on_event_not_file event_actions_ignored)
  have 4: "\<forall>fi. os_Stat w (Name event) = Inr fi \<and> IsDir fi \<longrightarrow>
      on_event cfg rx server w event = w \<and> event_actions cfg rx server w event = []"
    using 3 by (auto simp: IsFile_def)
  have 5: "Has event Create \<and> IsFile w (Name event) \<longrightarrow>
      log_lines (event_actions cfg rx server w event) \<noteq> []"
    using log_lines_event_actions [of cfg rx server w event]
    by (auto split: option.splits)
  from 1 2 3 4 5 show ?thesis by blast
qed

text \<open>
  C8. The first action of every call of \<open>EmailFile\<close> is the sleep of one second, which is
  not zero. The file is opened only after it: whenever the file is opened, the sleep is
  among the actions before, and the clock reads at least the time of the call plus one
  second.
\<close>

theorem EmailFile_sleeps_before_open:
  "(\<exists>rest. transfer_actions cfg server w file = Sleep Second # rest)
   \<and> 0 < Second
   \<and> (\<forall>pre p t post.
        transfer_actions cfg server w file = pre @ Open p t # post \<longrightarrow>
        Sleep Second \<in> set pre \<and> p = file \<and> now w + Second \<le> t)"
  by (auto simp: transfer_actions_unfold Cons_eq_append_conv outgoing_not_Open Second_def
      split: sum.splits if_splits)

lemma main_loop_Returned:
  "(snd (main_loop cfg rx server w ins) = Returned)
     = (Events_closed \<in> set ins \<or> Errors_closed \<in> set ins)"
  by (induction cfg rx server w ins rule: main_loop.induct) auto

lemma main_loop_append:
  "Events_closed \<notin> set ins \<Longrightarrow> Errors_closed \<notin> set ins \<Longrightarrow>
   main_loop cfg rx server w (ins @ later)
     = main_loop cfg rx server (fst (main_loop cfg rx server w ins)) later"
  by (induction cfg rx server w ins rule: main_loop.induct) auto

text \<open>
  C9. A received watcher error is logged, in one entry, and the loop goes on with what is
  received next. The goroutine has returned exactly when one of the two channels was
  found closed; as long as neither is, it handles everything it receives, whatever the
  events and errors were, and then waits in \<open>select\<close>.
\<close>

theorem main_loop_survives_errors:
  "main_loop cfg rx server w (Errors_recv err # rest)
     = main_loop cfg rx server (log_Println w [''Watcher error:'', err]) rest
   \<and> log_lines (emitted w (on_error w err)) = [fmt_Sprintln [''Watcher error:'', err]]
   \<and> (snd (main_loop cfg rx server w ins) = Returned
        \<longleftrightarrow> Events_closed \<in> set ins \<or> Errors_closed \<in> set ins)
   \<and> (Events_closed \<notin> set ins \<and> Errors_closed \<notin> set ins \<longrightarrow>
        snd (main_loop cfg rx server w ins) = Selecting
        \<and> main_loop cfg rx server w (ins @ later)
            = main_loop cfg rx server (fst (main_loop cfg rx server w ins)) later)"
proof -
  have 1: "main_loop cfg rx server w (Errors_recv err # rest)
     = main_loop cfg rx server (log_Println w [''Watcher error:'', err]) rest"
    by (simp add: on_error_def)
  have 2: "snd (main_loop cfg rx server w ins) = Selecting"
    if "Events_closed \<notin> set ins" "Errors_closed \<notin> set ins"
    using that main_loop_Returned [of cfg rx server w ins]
    by (cases "snd (main_loop cfg rx server w ins)") simp_all
  from 1 2 log_lines_on_error [of w err] main_loop_Returned [of cfg rx server w ins]
    main_loop_append [of ins cfg rx server w later]
  show ?thesis by blast
qed

text \<open>
  C10. A creation event whose path \<open>os.Stat\<close> cannot find leaves the world as it was: no
  transfer, no relocation and no log entry, and the loop goes on with the next reception.
\<close>

theorem vanished_file_dropped_silently:
  assumes "Has event Create" and "os_Stat w (Name event) = Inl err"
  shows "on_event cfg rx server w event = w
         \<and> event_actions cfg rx server w event = []
         \<and> main_loop cfg rx server w (Events_recv event # rest) = main_loop cfg rx server w rest"
proof -
  from assms(2) have "\<not> IsFile w (Name event)"
    by (simp add: IsFile_def)
  then show ?thesis
    by (simp add: on_event_not_file event_actions_ignored)
qed


theorem only_created_entries_processed_witness:
  "on_event scenario_config literal_regexp accepting scenario_world
     \<lparr>Name = ''watch/report.zip'', Op = Write\<rparr> = scenario_world
   \<and> on_event scenario_config literal_regexp accepting scenario_world (created ''watch'')
       = scenario_world
   \<and> log_lines (event_actions scenario_config literal_regexp accepting scenario_world
                  (created ''watch/notes.txt'')) \<noteq> []"
proof -
  note t = only_created_entries_processed
    [where cfg = scenario_config and rx = literal_regexp and server = accepting
       and w = scenario_world]
  have a: "\<not> Has \<lparr>Name = ''watch/report.zip'', Op = Write\<rparr> Create"
    by (simp add: Has_def Create_def Write_def)
  have b: "os_Stat scenario_world (Name (created ''watch'')) = Inr directory \<and> IsDir directory"
    by (simp add: model_defs)
  have c: "Has (created ''watch/notes.txt'') Create
      \<and> IsFile scenario_world (Name (created ''watch/notes.txt''))"
    by (simp add: model_defs)
  from a t [where event = "\<lparr>Name = ''watch/report.zip'', Op = Write\<rparr>"]
  have 1: "on_event scenario_config literal_regexp accepting scenario_world
     \<lparr>Name = ''watch/report.zip'', Op = Write\<rparr> = scenario_world"
    by blast
  from b t [where event = "created ''watch''"]
  have 2: "on_event scenario_config literal_regexp accepting scenario_world (created ''watch'')
       = scenario_world"
    by blast
  from c t [where event = "created ''watch/notes.txt''"]
  have 3: "log_lines (event_actions scenario_config literal_regexp accepting scenario_world
                  (created ''watch/notes.txt'')) \<noteq> []"
    by blast
  from 1 2 3 show ?thesis by blast
qed

text \<open>
  C7 as stated fails on a named pipe made in the watched folder: it is not a regular
  file, \<open>IsFile\<close> accepts it, and the loop goes on to filter it by extension.
\<close>

theorem named_pipe_passes_IsFile:
  "os_Stat pipe_world ''watch/queue.txt'' = Inr named_pipe
   \<and> \<not> IsRegular named_pipe
   \<and> IsFile pipe_world ''watch/queue.txt''
   \<and> event_actions scenario_config literal_regexp accepting pipe_world
        (created ''watch/queue.txt'')
       = [Println (''File: queue.txt has been ignored by extension'' @ [CHR 0x0A])]"
  by (simp add: model_defs IsRegular_def ModeType_def ModeNamedPipe_def ModeSymlink_def
      ModeSocket_def ModeDevice_def ModeCharDevice_def ModeIrregular_def)

theorem EmailFile_sleeps_before_open_witness:
  "transfer_actions scenario_config accepting scenario_world ''watch/report.zip''
     = [Sleep Second] @ Open ''watch/report.zip'' Second
         # [outgoing scenario_config accepting scenario_world ''watch/report.zip'' (regular ''PK'')]
   \<and> Sleep Second \<in> set [Sleep Second]
   \<and> now scenario_world + Second \<le> Second"
proof -
  have eq: "transfer_actions scenario_config accepting scenario_world ''watch/report.zip''
     = [Sleep Second] @ Open ''watch/report.zip'' Second
         # [outgoing scenario_config accepting scenario_world ''watch/report.zip'' (regular ''PK'')]"
    by (simp add: transfer_actions_unfold os_Stat_def node_at_def resolve_def enter_def
        IsPathSeparator_def scenario_world_def regular_def directory_def IsDir_def ModeDir_def)
  from EmailFile_sleeps_before_open
    [of scenario_config accepting scenario_world "''watch/report.zip''",
      THEN conjunct2, THEN conjunct2, rule_format, OF eq]
  show ?thesis using eq by blast
qed

theorem main_loop_survives_errors_witness:
  "snd (main_loop scenario_config literal_regexp refusing scenario_world
          [Errors_recv ''queue overflow'', Events_recv (created ''watch/report.zip'')])
     = Selecting
   \<and> snd (main_loop scenario_config literal_regexp refusing scenario_world
          [Errors_recv ''queue overflow'', Events_closed]) = Returned"
proof -
  have a: "Events_closed \<notin> set [Errors_recv ''queue overflow'', Events_recv (created ''watch/report.zip'')]
      \<and> Errors_closed \<notin> set [Errors_recv ''queue overflow'', Events_recv (created ''watch/report.zip'')]"
    by simp
  have b: "Events_closed \<in> set [Errors_recv ''queue overflow'', Events_closed]"
    by simp
  from a main_loop_survives_errors
    [where cfg = scenario_config and rx = literal_regexp and server = refusing
       and w = scenario_world
       and ins = "[Errors_recv ''queue overflow'', Events_recv (created ''watch/report.zip'')]"]
  have 1: "snd (main_loop scenario_config literal_regexp refusing scenario_world
          [Errors_recv ''queue overflow'', Events_recv (created ''watch/report.zip'')])
     = Selecting"
    by blast
  from b main_loop_survives_errors
    [where cfg = scenario_config and rx = literal_regexp and server = refusing
       and w = scenario_world
       and ins = "[Errors_recv ''queue overflow'', Events_closed]"]
  have 2: "snd (main_loop scenario_config literal_regexp refusing scenario_world
          [Errors_recv ''queue overflow'', Events_closed]) = Returned"
    by blast
  from 1 2 show ?thesis by blast
qed

theorem vanished_file_dropped_silently_witness:
  "Has (created ''watch/gone.zip'') Create
   \<and> os_Stat scenario_world (Name (created ''watch/gone.zip'')) = Inl ENOENT
   \<and> on_event scenario_config literal_regexp accepting scenario_world
        (created ''watch/gone.zip'') = scenario_world
   \<and> event_actions scenario_config literal_regexp accepting scenario_world
        (created ''watch/gone.zip'') = []"
proof -
  have a: "Has (created ''watch/gone.zip'') Create"
    by (simp add: Has_def created_def Create_def)
  have b: "os_Stat scenario_world (Name (created ''watch/gone.zip'')) = Inl ENOENT"
    by (simp add: model_defs)
  from vanished_file_dropped_silently [OF a b] a b show ?thesis by blast
qed

subsection \<open>The relocator\<close>

text \<open>\<open>os.MkdirAll\<close> on the file system.\<close>

lemma os_MkdirAll_nodes:
  "nodes (fst (os_MkdirAll w path perm)) = nodes (fst (mkdir_all w (rev (resolve w path)) perm))"
  by (cases "mkdir_all w (rev (resolve w path)) perm")
     (simp add: os_MkdirAll_def emit_fields Let_def)

lemma os_MkdirAll_result:
  "(snd (os_MkdirAll w path perm) = None) = (snd (mkdir_all w (rev (resolve w path)) perm) = None)"
  by (cases "mkdir_all w (rev (resolve w path)) perm")
     (simp add: os_MkdirAll_def emit_fields Let_def)

lemma os_MkdirAll_kept:
  "node_at w q = Some fi \<Longrightarrow> node_at (fst (os_MkdirAll w path perm)) q = Some fi"
  using mkdir_all_kept [of w q fi "rev (resolve w path)" perm]
  by (simp add: node_at_cong [OF os_MkdirAll_nodes])

lemma os_MkdirAll_made:
  "node_at w q = None \<Longrightarrow> node_at (fst (os_MkdirAll w path perm)) q = Some fi \<Longrightarrow>
   is_under q (resolve w path)
   \<and> fi = \<lparr>Mode = ModeDir OR (perm AND ModePerm AND NOT (umask w)), Data = []\<rparr>"
  using mkdir_all_made [of w q "rev (resolve w path)" perm fi]
  by (simp add: node_at_cong [OF os_MkdirAll_nodes])

lemma os_MkdirAll_ok:
  "snd (os_MkdirAll w path perm) = None \<Longrightarrow>
   \<exists>d. node_at (fst (os_MkdirAll w path perm)) (resolve w path) = Some d \<and> IsDir d"
  using mkdir_all_ok [of w "rev (resolve w path)" perm]
  by (simp add: node_at_cong [OF os_MkdirAll_nodes] os_MkdirAll_result)

lemma os_MkdirAll_well_formed:
  "well_formed w \<Longrightarrow> well_formed (fst (os_MkdirAll w path perm))"
  using mkdir_all_well_formed [of w "rev (resolve w path)" perm]
  by (simp add: well_formed_cong [OF os_MkdirAll_nodes])

lemma os_MkdirAll_path:
  assumes "well_formed w" and "snd (os_MkdirAll w path perm) = None"
    and "is_under q (resolve w path)"
  shows "\<exists>d. node_at (fst (os_MkdirAll w path perm)) q = Some d \<and> IsDir d"
proof -
  from os_MkdirAll_ok [OF assms(2)] obtain d where
    d: "node_at (fst (os_MkdirAll w path perm)) (resolve w path) = Some d" "IsDir d"
    by blast
  show ?thesis
  proof (cases "q = resolve w path")
    case True
    with d show ?thesis by simp
  next
    case False
    from well_formed_ancestor [OF os_MkdirAll_well_formed [OF assms(1)] d(1) assms(3) False]
    show ?thesis .
  qed
qed

lemma perm_bits_0750:
  "owner_rwx (ModeDir OR 0x1E8)" "group_rx_only (ModeDir OR 0x1E8)"
  by (simp_all add: owner_rwx_def group_rx_only_def ModeDir_def)

lemma event_actions_MkdirAll:
  assumes "MkdirAll path perm err \<in> set (event_actions cfg rx server w event)"
  shows "path = filepath_Join [watch_folder cfg, ''save''] \<and> perm = 0x1E8"
proof (cases "Has event Create \<and> IsFile w (Name event)")
  case False
  with assms show ?thesis by (simp add: event_actions_ignored)
next
  case g: True
  show ?thesis
  proof (cases "ExtensionMatched rx (watch_filetypes cfg) (filepath_Ext (Name event))")
    case False
    with g assms show ?thesis by (simp add: event_actions_skipped)
  next
    case m: True
    have nt: "MkdirAll path perm err \<notin> set (transfer_actions cfg server w (Name event))"
      using transfer_actions_transfer [of "MkdirAll path perm err" cfg server w "Name event"]
      by auto
    show ?thesis
    proof (cases "snd (EmailFile cfg server w (Name event))")
      case (Some e)
      with g m assms nt show ?thesis by (simp add: event_actions_failed)
    next
      case None
      with g m obtain e1 e2 where "event_actions cfg rx server w event =
        transfer_actions cfg server w (Name event) @
          [Println (fmt_Sprintln [''File:'', filepath_Base (Name event),
                                        ''has been sent to addressees'']),
           MkdirAll (filepath_Join [watch_folder cfg, ''save'']) 0x1E8 e1,
           Rename (Name event)
             (filepath_Join [watch_folder cfg, ''save'', filepath_Base (Name event)]) e2]"
        using event_actions_sent [of event w rx cfg server] by auto
      with assms nt show ?thesis by auto
    qed
  qed
qed

text \<open>
  C3, as amended. Every \<open>os.MkdirAll\<close> of the loop is for \<open>watch/save\<close> with mode 0750.
  In a well-formed world such a call, when it succeeds, leaves a directory at every
  prefix of the destination path; the entries it creates lie on that path and are
  directories with the permission bits of 0750 less the umask, which never grant
  anything to others and never all of read, write and execute to the group; where the
  umask takes nothing from 0750 they are \<open>rwx\<close> for the owner and \<open>r-x\<close>, without write,
  for the group. Entries that were there keep what they were.
\<close>

theorem relocator_directories_mode_0750:
  assumes "well_formed v"
  shows "(\<forall>path perm err.
            MkdirAll path perm err \<in> set (event_actions cfg rx server w event) \<longrightarrow>
            path = filepath_Join [watch_folder cfg, ''save''] \<and> perm = 0x1E8)
    \<and> (snd (os_MkdirAll v dir 0x1E8) = None \<longrightarrow>
         (\<forall>q. is_under q (resolve v dir) \<longrightarrow>
            (\<exists>d. node_at (fst (os_MkdirAll v dir 0x1E8)) q = Some d \<and> IsDir d)))
    \<and> (\<forall>q fi. node_at v q = None \<and> node_at (fst (os_MkdirAll v dir 0x1E8)) q = Some fi \<longrightarrow>
         is_under q (resolve v dir) \<and> IsDir fi
         \<and> Mode fi = ModeDir OR (0x1E8 AND ModePerm AND NOT (umask v))
         \<and> others_none (Mode fi) \<and> \<not> group_rwx (Mode fi)
         \<and> (umask v AND 0x1E8 = 0 \<longrightarrow> owner_rwx (Mode fi) \<and> group_rx_only (Mode fi)))
    \<and> (\<forall>q fi. node_at v q = Some fi \<longrightarrow> node_at (fst (os_MkdirAll v dir 0x1E8)) q = Some fi)"
proof -
  have 1: "\<forall>path perm err.
            MkdirAll path perm err \<in> set (event_actions cfg rx server w event) \<longrightarrow>
            path = filepath_Join [watch_folder cfg, ''save''] \<and> perm = 0x1E8"
    using event_actions_MkdirAll by blast
  have 2: "snd (os_MkdirAll v dir 0x1E8) = None \<longrightarrow>
         (\<forall>q. is_under q (resolve v dir) \<longrightarrow>
            (\<exists>d. node_at (fst (os_MkdirAll v dir 0x1E8)) q = Some d \<and> IsDir d))"
    using os_MkdirAll_path [OF assms] by blast
  have 3: "is_under q (resolve v dir) \<and> IsDir fi
         \<and> Mode fi = ModeDir OR (0x1E8 AND ModePerm AND NOT (umask v))
         \<and> others_none (Mode fi) \<and> \<not> group_rwx (Mode fi)
         \<and> (umask v AND 0x1E8 = 0 \<longrightarrow> owner_rwx (Mode fi) \<and> group_rx_only (Mode fi))"
    if "node_at v q = None" "node_at (fst (os_MkdirAll v dir 0x1E8)) q = Some fi" for q fi
  proof -
    from os_MkdirAll_made [OF that] have u: "is_under q (resolve v dir)"
      and fi: "fi = \<lparr>Mode = ModeDir OR (0x1E8 AND ModePerm AND NOT (umask v)), Data = []\<rparr>"
      by simp_all
    have "owner_rwx (Mode fi) \<and> group_rx_only (Mode fi)" if "umask v AND 0x1E8 = 0"
      using perm_0750_umask [OF that] by (simp add: fi perm_bits_0750)
    with u fi show ?thesis
      by (simp add: IsDir_made others_none_0750 not_group_rwx_0750)
  qed
  have 4: "\<forall>q fi. node_at v q = Some fi \<longrightarrow> node_at (fst (os_MkdirAll v dir 0x1E8)) q = Some fi"
    using os_MkdirAll_kept by blast
  from 1 2 3 4 show ?thesis by blast
qed

lemma well_formed_scenario: "well_formed scenario_world"
  by (auto simp: well_formed_def scenario_world_def node_at_def directory_def root_dir_def
      IsDir_def ModeDir_def split: if_splits)


theorem relocator_directories_mode_0750_witness:
  "well_formed scenario_world
   \<and> snd (os_MkdirAll scenario_world ''watch/save'' 0x1E8) = None
   \<and> node_at scenario_world [''home'', ''watch'', ''save''] = None
   \<and> node_at (fst (os_MkdirAll scenario_world ''watch/save'' 0x1E8)) [''home'', ''watch'', ''save'']
       = Some \<lparr>Mode = ModeDir OR 0x1E8, Data = []\<rparr>
   \<and> umask scenario_world AND 0x1E8 = 0
   \<and> owner_rwx (ModeDir OR 0x1E8) \<and> group_rx_only (ModeDir OR 0x1E8)
   \<and> others_none (ModeDir OR 0x1E8) \<and> \<not> group_rwx (ModeDir OR 0x1E8)
   \<and> (\<exists>d. node_at (fst (os_MkdirAll scenario_world ''watch/save'' 0x1E8)) [''home'', ''watch'']
            = Some d \<and> IsDir d)"
proof -
  note t = relocator_directories_mode_0750 [OF well_formed_scenario,
      where dir = "''watch/save''" and cfg = scenario_config and rx = literal_regexp
        and server = accepting and w = scenario_world and event = "created ''watch/report.zip''"]
  have ok: "snd (os_MkdirAll scenario_world ''watch/save'' 0x1E8) = None"
    by (simp add: model_defs)
  have r: "resolve scenario_world ''watch/save'' = [''home'', ''watch'', ''save'']"
    by (simp add: model_defs)
  have none: "node_at scenario_world [''home'', ''watch'', ''save''] = None"
    by (simp add: model_defs)
  have made: "node_at (fst (os_MkdirAll scenario_world ''watch/save'' 0x1E8))
      [''home'', ''watch'', ''save''] = Some \<lparr>Mode = ModeDir OR 0x1E8, Data = []\<rparr>"
    by (simp add: model_defs)
  have u: "umask scenario_world AND 0x1E8 = 0"
    by (simp add: scenario_world_def)
  have p: "is_under [''home'', ''watch''] (resolve scenario_world ''watch/save'')"
    by (simp add: r is_under_def)
  from t none made u have
    "owner_rwx (Mode \<lparr>Mode = ModeDir OR 0x1E8, Data = []\<rparr>)
     \<and> group_rx_only (Mode \<lparr>Mode = ModeDir OR 0x1E8, Data = []\<rparr>)
     \<and> others_none (Mode \<lparr>Mode = ModeDir OR 0x1E8, Data = []\<rparr>)
     \<and> \<not> group_rwx (Mode \<lparr>Mode = ModeDir OR 0x1E8, Data = []\<rparr>)"
    by blast
  moreover from t ok p have
    "\<exists>d. node_at (fst (os_MkdirAll scenario_world ''watch/save'' 0x1E8)) [''home'', ''watch'']
            = Some d \<and> IsDir d"
    by blast
  ultimately show ?thesis
    using well_formed_scenario ok none made u by simp
qed

text \<open>
  C3 as stated fails even with an empty umask: the directory \<open>watch/save\<close> that the loop
  creates has mode 0750, in which the group has read and execute but not write.
\<close>

theorem save_directory_not_group_writable:
  "nodes (scenario_world\<lparr>umask := 0\<rparr>) [''home'', ''watch'', ''save''] = None
   \<and> nodes (on_event scenario_config literal_regexp accepting (scenario_world\<lparr>umask := 0\<rparr>)
              (created ''watch/report.zip'')) [''home'', ''watch'', ''save'']
       = Some \<lparr>Mode = ModeDir OR 0x1E8, Data = []\<rparr>
   \<and> \<not> group_rwx (ModeDir OR 0x1E8)"
  by (simp add: model_defs group_rwx_def)















subsection \<open>Transfer and relocation\<close>





end
